theory Spec2Isabelle
  imports Main "HOL-Library.Word"
begin

unbundle bit_operations_syntax

section \<open>The Pico HID drivers of \<^verbatim>\<open>hid/lib/drivers-pico/factory.cpp\<close>\<close>

text \<open>
  The file defines two stateful drivers, \<^verbatim>\<open>UsbMouse\<close> and \<^verbatim>\<open>UsbKeyboard\<close>, on top of one
  global transport object \<^verbatim>\<open>gKbMouse\<close> (an \<^verbatim>\<open>USBMouseKeyboard\<close> of the board's USB library).
  Every method runs to completion; a method is modelled as a function from the pair
  (driver object, transport) to the pair after the call.
\<close>

subsection \<open>Machine types\<close>

text \<open>
  \<^verbatim>\<open>int\<close> is 32 bits wide on the RP2040; \<^verbatim>\<open>uint8_t\<close> is a byte. Bitwise operators on
  words are the operators of C; \<^verbatim>\<open>int\<close> values are compared through \<open>sint\<close>.
\<close>

type_synonym cint = "32 word"
type_synonym uint8_t = "8 word"

subsection \<open>What the included headers declare\<close>

text \<open>
  The constants \<^verbatim>\<open>MOUSE_LEFT\<close>, \<^verbatim>\<open>MOUSE_RIGHT\<close>, \<^verbatim>\<open>MOUSE_MIDDLE\<close>, \<^verbatim>\<open>KEY_CTRL\<close> ...
  \<^verbatim>\<open>KEY_RALT\<close> and \<^verbatim>\<open>REPORT_ID_KEYBOARD\<close> come from \<^verbatim>\<open>USBMouseKeyboard.h\<close>, and the table
  \<^verbatim>\<open>keymapUsb\<close> from \<^verbatim>\<open>usb-keymap.h\<close>. Neither header is part of the file, so the drivers
  take them as a parameter: one record holding every name the file uses, each with
  the value it has after conversion to the type the file stores it in.
\<close>

record usb_lib =
  MOUSE_LEFT :: cint
  MOUSE_RIGHT :: cint
  MOUSE_MIDDLE :: cint
  KEY_CTRL :: cint
  KEY_SHIFT :: cint
  KEY_ALT :: cint
  KEY_LOGO :: cint
  KEY_RCTRL :: cint
  KEY_RSHIFT :: cint
  KEY_RALT :: cint
  REPORT_ID_KEYBOARD :: uint8_t
  keymapUsb :: "uint8_t \<Rightarrow> cint"

subsection \<open>The transport \<^verbatim>\<open>gKbMouse\<close>\<close>

text \<open>
  \<^verbatim>\<open>HID_REPORT\<close> is a length and a byte array. The local \<^verbatim>\<open>report\<close> of \<^verbatim>\<open>sendRaport\<close> starts
  uninitialised: a byte that was never written is \<open>None\<close>.
\<close>

record HID_REPORT =
  rlength :: nat
  data :: "nat \<rightharpoonup> uint8_t"

text \<open>
  The drivers call three methods of \<^verbatim>\<open>gKbMouse\<close>: \<^verbatim>\<open>move(x, y)\<close>, \<^verbatim>\<open>update(x, y, buttons, z)\<close>
  and \<^verbatim>\<open>send(&report)\<close>. The transport is the list of calls made on it so far, oldest
  first; each call appends one entry.
\<close>

datatype usb_call =
  Move cint cint
  | Update cint cint cint cint
  | Send HID_REPORT

type_synonym gKbMouse = "usb_call list"

definition gKbMouse_move :: "cint \<Rightarrow> cint \<Rightarrow> gKbMouse \<Rightarrow> gKbMouse" where
  "gKbMouse_move x y usb = usb @ [Move x y]"

definition gKbMouse_update :: "cint \<Rightarrow> cint \<Rightarrow> cint \<Rightarrow> cint \<Rightarrow> gKbMouse \<Rightarrow> gKbMouse" where
  "gKbMouse_update x y buttons z usb = usb @ [Update x y buttons z]"

definition gKbMouse_send :: "HID_REPORT \<Rightarrow> gKbMouse \<Rightarrow> gKbMouse" where
  "gKbMouse_send report usb = usb @ [Send report]"

text \<open>The bytes of a report that go on the wire: the first \<open>rlength\<close> bytes of \<open>data\<close>.\<close>

definition wire_bytes :: "HID_REPORT \<Rightarrow> uint8_t option list" where
  "wire_bytes report = map (data report) [0 ..< rlength report]"

subsection \<open>\<^verbatim>\<open>class UsbMouse\<close>\<close>

record UsbMouse =
  mPositionX :: cint
  mPositionY :: cint
  mScroll :: cint
  mButtons :: cint

definition UsbMouse_clear :: "UsbMouse \<times> gKbMouse \<Rightarrow> UsbMouse \<times> gKbMouse" where
  "UsbMouse_clear = (\<lambda>(m, usb).
     (m\<lparr>mButtons := 0, mPositionX := 0, mPositionY := 0, mScroll := 0\<rparr>, usb))"

definition UsbMouse_sendUpdate :: "UsbMouse \<times> gKbMouse \<Rightarrow> UsbMouse \<times> gKbMouse" where
  "UsbMouse_sendUpdate = (\<lambda>(m, usb).
     (m, gKbMouse_update (mPositionX m) (mPositionY m) (mButtons m) (mScroll m) usb))"

text \<open>
  The three \<^verbatim>\<open>if\<close> statements of \<^verbatim>\<open>sendButtons\<close> in the order of the source. The first
  tests \<^verbatim>\<open>leftState\<close>, the second \<^verbatim>\<open>rightSelect\<close>, the third \<^verbatim>\<open>middleState\<close>; the other
  seven parameters are never read.
\<close>

definition UsbMouse_sendButtons ::
  "usb_lib \<Rightarrow> bool \<Rightarrow> bool \<Rightarrow> bool \<Rightarrow> bool \<Rightarrow> bool \<Rightarrow> bool \<Rightarrow> bool \<Rightarrow> bool \<Rightarrow> bool \<Rightarrow> bool
    \<Rightarrow> UsbMouse \<times> gKbMouse \<Rightarrow> UsbMouse \<times> gKbMouse" where
  "UsbMouse_sendButtons L leftSelect leftState rightSelect rightState middleSelect middleState
       upSelect upState downSelect downState = (\<lambda>(m, usb).
     let m1 = (if leftState then m\<lparr>mButtons := mButtons m OR MOUSE_LEFT L\<rparr>
               else m\<lparr>mButtons := mButtons m AND NOT (MOUSE_LEFT L)\<rparr>);
         m2 = (if rightSelect then m1\<lparr>mButtons := mButtons m1 OR MOUSE_RIGHT L\<rparr>
               else m1\<lparr>mButtons := mButtons m1 AND NOT (MOUSE_RIGHT L)\<rparr>);
         m3 = (if middleState then m2\<lparr>mButtons := mButtons m2 OR MOUSE_MIDDLE L\<rparr>
               else m2\<lparr>mButtons := mButtons m2 AND NOT (MOUSE_MIDDLE L)\<rparr>)
     in UsbMouse_sendUpdate (m3, usb))"

definition UsbMouse_sendRelative :: "cint \<Rightarrow> cint \<Rightarrow> UsbMouse \<times> gKbMouse \<Rightarrow> UsbMouse \<times> gKbMouse" where
  "UsbMouse_sendRelative x y = (\<lambda>(m, usb). (m, gKbMouse_move x y usb))"

definition UsbMouse_sendMove :: "cint \<Rightarrow> cint \<Rightarrow> UsbMouse \<times> gKbMouse \<Rightarrow> UsbMouse \<times> gKbMouse" where
  "UsbMouse_sendMove x y = (\<lambda>(m, usb).
     UsbMouse_sendUpdate (m\<lparr>mPositionX := x, mPositionY := y\<rparr>, usb))"

definition UsbMouse_sendWheel :: "cint \<Rightarrow> UsbMouse \<times> gKbMouse \<Rightarrow> UsbMouse \<times> gKbMouse" where
  "UsbMouse_sendWheel z = (\<lambda>(m, usb). UsbMouse_sendUpdate (m\<lparr>mScroll := z\<rparr>, usb))"

subsection \<open>\<^verbatim>\<open>std::set<int>\<close>\<close>

text \<open>
  A \<^verbatim>\<open>std::set<int>\<close> holds each value at most once and iterates in ascending order of
  \<^verbatim>\<open>int\<close>: it is the list of its elements in iteration order, \<^verbatim>\<open>cbegin()\<close> first.
  \<^verbatim>\<open>emplace\<close> puts a value at its place in that order and does nothing when the value
  is there already; \<^verbatim>\<open>find\<close> followed by \<^verbatim>\<open>erase(iter)\<close> takes one element out.
\<close>

fun set_emplace :: "cint \<Rightarrow> cint list \<Rightarrow> cint list" where
  "set_emplace k [] = [k]"
| "set_emplace k (x # xs) =
     (if k <s x then k # x # xs
      else if x <s k then x # set_emplace k xs
      else x # xs)"

subsection \<open>\<^verbatim>\<open>class UsbKeyboard\<close>\<close>

record UsbKeyboard =
  mModifiers :: cint
  mKeys :: "cint list"

text \<open>
  The constructor initialises no member: \<^verbatim>\<open>mKeys\<close> is default-constructed, the empty
  set, and \<^verbatim>\<open>mModifiers\<close> holds whatever the memory held.
\<close>

definition UsbKeyboard_new :: "cint \<Rightarrow> UsbKeyboard" where
  "UsbKeyboard_new junk = \<lparr>mModifiers = junk, mKeys = []\<rparr>"

definition UsbKeyboard_clear :: "UsbKeyboard \<times> gKbMouse \<Rightarrow> UsbKeyboard \<times> gKbMouse" where
  "UsbKeyboard_clear = (\<lambda>(kb, usb). (kb\<lparr>mKeys := []\<rparr>, usb))"

text \<open>The \<^verbatim>\<open>switch\<close> of \<^verbatim>\<open>codeToModifier\<close>: seven \<^verbatim>\<open>case\<close> labels, 77 to 83, and the default.\<close>

definition codeToModifier :: "usb_lib \<Rightarrow> cint \<Rightarrow> cint" where
  "codeToModifier L code =
     (if code = 77 then KEY_CTRL L
      else if code = 78 then KEY_SHIFT L
      else if code = 79 then KEY_ALT L
      else if code = 80 then KEY_LOGO L
      else if code = 81 then KEY_RCTRL L
      else if code = 82 then KEY_RSHIFT L
      else if code = 83 then KEY_RALT L
      else - 1)"

text \<open>
  The loop of \<^verbatim>\<open>sendRaport\<close>: \<^verbatim>\<open>for (int i = 0; i < min(mKeys.size(), 1); i++)\<close>, with
  the iterator as the rest of the list still to visit. The bound keeps the iterator
  before \<^verbatim>\<open>end()\<close>, so the loop never reads through an exhausted iterator; the model
  stops there.
\<close>

function fill_keys :: "nat \<Rightarrow> cint list \<Rightarrow> cint list \<Rightarrow> (nat \<rightharpoonup> uint8_t) \<Rightarrow> (nat \<rightharpoonup> uint8_t)" where
  "fill_keys i keys iter d =
     (if i < min (length keys) 1
      then (case iter of
              [] \<Rightarrow> d
            | k # rest \<Rightarrow> fill_keys (i + 1) keys rest (d(3 + i \<mapsto> ucast k)))
      else d)"
  by pat_completeness auto
termination
  by (relation "measure (\<lambda>(i, keys, iter, d). min (length keys) 1 - i)") auto

text \<open>
  The local \<^verbatim>\<open>report\<close> as \<^verbatim>\<open>sendRaport\<close> has built it when it calls \<^verbatim>\<open>gKbMouse.send\<close>:
  the nine assignments to \<^verbatim>\<open>data[0..8]\<close>, the loop, then \<^verbatim>\<open>length = 9\<close>. Storing an
  \<^verbatim>\<open>int\<close> in a byte keeps its low eight bits.
\<close>

definition sendRaport_report :: "usb_lib \<Rightarrow> UsbKeyboard \<Rightarrow> HID_REPORT" where
  "sendRaport_report L kb =
     (let d0 = Map.empty(0 \<mapsto> REPORT_ID_KEYBOARD L);
          d1 = d0(1 \<mapsto> ucast (mModifiers kb));
          d2 = d1(2 \<mapsto> 0);
          d3 = d2(3 \<mapsto> 0);
          d4 = d3(4 \<mapsto> 0);
          d5 = d4(5 \<mapsto> 0);
          d6 = d5(6 \<mapsto> 0);
          d7 = d6(7 \<mapsto> 0);
          d8 = d7(8 \<mapsto> 0);
          d9 = fill_keys 0 (mKeys kb) (mKeys kb) d8
      in \<lparr>rlength = 9, data = d9\<rparr>)"

definition UsbKeyboard_sendRaport :: "usb_lib \<Rightarrow> UsbKeyboard \<times> gKbMouse \<Rightarrow> UsbKeyboard \<times> gKbMouse" where
  "UsbKeyboard_sendRaport L = (\<lambda>(kb, usb). (kb, gKbMouse_send (sendRaport_report L kb) usb))"

definition UsbKeyboard_sendKey ::
  "usb_lib \<Rightarrow> uint8_t \<Rightarrow> bool \<Rightarrow> UsbKeyboard \<times> gKbMouse \<Rightarrow> UsbKeyboard \<times> gKbMouse" where
  "UsbKeyboard_sendKey L code state = (\<lambda>(kb, usb).
     let m = codeToModifier L (ucast code);
         kb' =
           (if m \<noteq> - 1 then
              (if state then kb\<lparr>mModifiers := mModifiers kb OR m\<rparr>
               else kb\<lparr>mModifiers := mModifiers kb AND NOT m\<rparr>)
            else
              (let key = keymapUsb L code in
               if state then
                 (if length (mKeys kb) < 5 then kb\<lparr>mKeys := set_emplace key (mKeys kb)\<rparr>
                  else kb)
               else
                 (if key \<in> set (mKeys kb) then kb\<lparr>mKeys := remove1 key (mKeys kb)\<rparr>
                  else kb)))
     in UsbKeyboard_sendRaport L (kb', usb))"

subsection \<open>Sequences of calls on the keyboard\<close>

text \<open>
  The calls of the \<^verbatim>\<open>Keyboard\<close> interface that touch the state, and a run of them from
  left to right. \<^verbatim>\<open>begin\<close> has an empty body and \<^verbatim>\<open>isOffline\<close> returns \<^verbatim>\<open>false\<close>.
\<close>

datatype keyboard_call = Call_sendKey uint8_t bool | Call_clear

fun UsbKeyboard_call :: "usb_lib \<Rightarrow> keyboard_call \<Rightarrow> UsbKeyboard \<times> gKbMouse \<Rightarrow> UsbKeyboard \<times> gKbMouse" where
  "UsbKeyboard_call L (Call_sendKey code state) w = UsbKeyboard_sendKey L code state w"
| "UsbKeyboard_call L Call_clear w = UsbKeyboard_clear w"

fun UsbKeyboard_run :: "usb_lib \<Rightarrow> keyboard_call list \<Rightarrow> UsbKeyboard \<times> gKbMouse \<Rightarrow> UsbKeyboard \<times> gKbMouse" where
  "UsbKeyboard_run L [] w = w"
| "UsbKeyboard_run L (c # cs) w = UsbKeyboard_run L cs (UsbKeyboard_call L c w)"

subsection \<open>The pressed keys as the specification words them\<close>

text \<open>
  This definition follows the specification, not the source: "\<^verbatim>\<open>pressedKeys\<close>, an
  insertion-ordered set of translated key-usage values, capacity-bounded at 5
  concurrent entries"; "on press, insert into \<^verbatim>\<open>pressedKeys\<close> only if current size < 5;
  on release, remove if present"; "\<^verbatim>\<open>clear()\<close> empties \<^verbatim>\<open>pressedKeys\<close>". The list is in
  insertion order, so its head is the key pressed earliest among those still held.
\<close>

fun spec_pressedKeys_call :: "usb_lib \<Rightarrow> cint list \<Rightarrow> keyboard_call \<Rightarrow> cint list" where
  "spec_pressedKeys_call L ks Call_clear = []"
| "spec_pressedKeys_call L ks (Call_sendKey code state) =
     (if codeToModifier L (ucast code) \<noteq> - 1 then ks
      else if state then
        (if keymapUsb L code \<notin> set ks \<and> length ks < 5 then ks @ [keymapUsb L code] else ks)
      else removeAll (keymapUsb L code) ks)"

definition spec_pressedKeys :: "usb_lib \<Rightarrow> keyboard_call list \<Rightarrow> cint list" where
  "spec_pressedKeys L calls = foldl (spec_pressedKeys_call L) [] calls"

subsection \<open>One instance of the headers, for concrete inputs\<close>

text \<open>
  Single-bit button and modifier flags in the order of a HID boot report, report id 1,
  and a key table that sends the codes 1, 2, 3, ... to the usage ids 4, 5, 6, ...
  (the letters).
\<close>

definition sample_lib :: usb_lib where
  "sample_lib =
     \<lparr>MOUSE_LEFT = 1, MOUSE_RIGHT = 2, MOUSE_MIDDLE = 4,
      KEY_CTRL = 1, KEY_SHIFT = 2, KEY_ALT = 4, KEY_LOGO = 8,
      KEY_RCTRL = 16, KEY_RSHIFT = 32, KEY_RALT = 64,
      REPORT_ID_KEYBOARD = 1,
      keymapUsb = (\<lambda>code. ucast code + 3)\<rparr>"

subsection \<open>The representation invariant of \<^verbatim>\<open>mKeys\<close>\<close>

text \<open>
  The list is strictly ascending in the order of \<^verbatim>\<open>int\<close>, as the iteration of a
  \<^verbatim>\<open>std::set<int>\<close> is, and holds at most five keys.
\<close>

definition keys_ok :: "UsbKeyboard \<times> gKbMouse \<Rightarrow> bool" where
  "keys_ok w = (sorted_wrt (<s) (mKeys (fst w)) \<and> length (mKeys (fst w)) \<le> 5)"

section \<open>Auxiliary facts\<close>

subsection \<open>Bytes and ints\<close>

lemma ucast_back: "(ucast (ucast (code :: uint8_t) :: cint) :: uint8_t) = code"
  by (simp add: ucast_up_ucast_id is_up)

lemma code_of_ucast: "(ucast (code :: uint8_t) :: cint) = c \<Longrightarrow> code = ucast c"
  using ucast_back [of code] by simp

subsection \<open>The ordered set\<close>

lemma set_set_emplace: "set (set_emplace k xs) = insert k (set xs)"
  by (induction xs) (auto simp: signed.not_less_iff_gr_or_eq)

lemma length_set_emplace: "length (set_emplace k xs) \<le> Suc (length xs)"
  by (induction xs) simp_all

lemma sorted_set_emplace:
  "sorted_wrt (<s) xs \<Longrightarrow> sorted_wrt (<s) (set_emplace k xs)"
proof (induction xs)
  case Nil
  show ?case by simp
next
  case (Cons x xs)
  then have tl: "sorted_wrt (<s) (set_emplace k xs)" and above: "\<forall>y\<in>set xs. x <s y"
    by simp_all
  show ?case
  proof (cases "k <s x")
    case True
    with Cons.prems above show ?thesis
      by (auto intro: signed.less_trans)
  next
    case False
    with Cons.prems tl above show ?thesis
      by (auto simp: set_set_emplace)
  qed
qed

lemma sorted_wrt_remove1: "sorted_wrt P xs \<Longrightarrow> sorted_wrt P (remove1 k xs)"
proof (induction xs)
  case Nil
  show ?case by simp
next
  case (Cons x xs)
  have "set (remove1 k xs) \<subseteq> set xs"
    by (rule set_remove1_subset)
  with Cons show ?case by auto
qed

lemma sorted_sless_distinct: "sorted_wrt (<s) xs \<Longrightarrow> distinct xs"
  by (induction xs) auto

subsection \<open>What one \<^verbatim>\<open>sendKey\<close> does to each part of the state\<close>

lemma fst_sendRaport: "fst (UsbKeyboard_sendRaport L w) = fst w"
  by (simp add: UsbKeyboard_sendRaport_def split_beta)

lemma mKeys_sendKey:
  "mKeys (fst (UsbKeyboard_sendKey L code state w)) =
     (if codeToModifier L (ucast code) \<noteq> - 1 then mKeys (fst w)
      else if state then
        (if length (mKeys (fst w)) < 5 then set_emplace (keymapUsb L code) (mKeys (fst w))
         else mKeys (fst w))
      else
        (if keymapUsb L code \<in> set (mKeys (fst w)) then remove1 (keymapUsb L code) (mKeys (fst w))
         else mKeys (fst w)))"
  by (simp add: UsbKeyboard_sendKey_def split_beta Let_def fst_sendRaport)

lemma mModifiers_sendKey:
  "mModifiers (fst (UsbKeyboard_sendKey L code state w)) =
     (if codeToModifier L (ucast code) \<noteq> - 1 then
        (if state then mModifiers (fst w) OR codeToModifier L (ucast code)
         else mModifiers (fst w) AND NOT (codeToModifier L (ucast code)))
      else mModifiers (fst w))"
  by (simp add: UsbKeyboard_sendKey_def split_beta Let_def fst_sendRaport)

lemma snd_sendKey:
  "snd (UsbKeyboard_sendKey L code state w) =
     snd w @ [Send (sendRaport_report L (fst (UsbKeyboard_sendKey L code state w)))]"
  by (simp add: UsbKeyboard_sendKey_def UsbKeyboard_sendRaport_def gKbMouse_send_def
      split_beta Let_def)

subsection \<open>The invariant holds after construction and after every call\<close>

lemma keys_ok_new: "keys_ok (UsbKeyboard_new junk, usb)"
  by (simp add: keys_ok_def UsbKeyboard_new_def)

lemma keys_ok_call: "keys_ok w \<Longrightarrow> keys_ok (UsbKeyboard_call L c w)"
proof (cases c)
  case (Call_sendKey code state)
  assume ok: "keys_ok w"
  have "length (set_emplace (keymapUsb L code) (mKeys (fst w))) \<le> Suc (length (mKeys (fst w)))"
    by (rule length_set_emplace)
  moreover have "length (remove1 (keymapUsb L code) (mKeys (fst w))) \<le> length (mKeys (fst w))"
    by (simp add: length_remove1)
  ultimately show ?thesis
    using ok Call_sendKey
    by (auto simp: keys_ok_def mKeys_sendKey sorted_set_emplace sorted_wrt_remove1)
next
  case Call_clear
  then show ?thesis
    by (simp add: keys_ok_def UsbKeyboard_clear_def split_beta)
qed

lemma keys_ok_run: "keys_ok w \<Longrightarrow> keys_ok (UsbKeyboard_run L cs w)"
  by (induction cs arbitrary: w) (simp_all add: keys_ok_call)

subsection \<open>The report\<close>

lemma fill_keys_0: "fill_keys 0 ks ks d = (case ks of [] \<Rightarrow> d | k # rest \<Rightarrow> d(3 \<mapsto> ucast k))"
  by (cases ks) simp_all

lemma upt_9: "[0..<9] = [0, 1, 2, 3, 4, 5, 6, 7, 8::nat]"
  by (simp add: upt_rec)

lemma wire_bytes_sendRaport:
  "wire_bytes (sendRaport_report L kb) =
     map Some [REPORT_ID_KEYBOARD L, ucast (mModifiers kb), 0,
               (case mKeys kb of [] \<Rightarrow> 0 | k # rest \<Rightarrow> ucast k), 0, 0, 0, 0, 0]"
  by (cases "mKeys kb") (simp_all add: wire_bytes_def sendRaport_report_def fill_keys_0 upt_9)

section \<open>The claims\<close>

subsection \<open>C1: the button mask of \<^verbatim>\<open>sendButtons\<close>\<close>

text \<open>
  C1 asks that each button's bit changes only when its \<^verbatim>\<open>*Select\<close> argument is true, and
  then follows its \<^verbatim>\<open>*State\<close> argument. The source never reads \<^verbatim>\<open>leftSelect\<close>,
  \<^verbatim>\<open>middleSelect\<close> or \<^verbatim>\<open>rightState\<close>. With single-bit flags (left 1, right 2, middle 4):
  pressing the left button alone from a cleared mouse gives the mask 1, as C1 says;
  a second call that selects nothing clears the left bit, where C1 keeps it;
  pressing the right button while the left one is held drops the left bit, where C1
  gives the mask 3; and releasing the right button (\<^verbatim>\<open>rightSelect\<close> true, \<^verbatim>\<open>rightState\<close>
  false) leaves the right bit set, where C1 clears it. Under every header and in every
  state the call does the same whatever the seven arguments it does not read are.
\<close>

theorem UsbMouse_sendButtons_ignores_select:
  "mButtons (fst (UsbMouse_sendButtons sample_lib
        True True False False False False False False False False
        (\<lparr>mPositionX = 0, mPositionY = 0, mScroll = 0, mButtons = 0\<rparr>, []))) = 1
   \<and> mButtons (fst (UsbMouse_sendButtons sample_lib
        False False False False False False False False False False
        (\<lparr>mPositionX = 0, mPositionY = 0, mScroll = 0, mButtons = 1\<rparr>, []))) = 0
   \<and> mButtons (fst (UsbMouse_sendButtons sample_lib
        False False True True False False False False False False
        (\<lparr>mPositionX = 0, mPositionY = 0, mScroll = 0, mButtons = 1\<rparr>, []))) = 2
   \<and> mButtons (fst (UsbMouse_sendButtons sample_lib
        False False True False False False False False False False
        (\<lparr>mPositionX = 0, mPositionY = 0, mScroll = 0, mButtons = 2\<rparr>, []))) = 2
   \<and> UsbMouse_sendButtons L leftSelect leftState rightSelect rightState middleSelect middleState
        upSelect upState downSelect downState (m, usb) =
       UsbMouse_sendButtons L leftSelect' leftState rightSelect rightState' middleSelect' middleState
        upSelect' upState' downSelect' downState' (m, usb)"
proof -
  have "UsbMouse_sendButtons L leftSelect leftState rightSelect rightState middleSelect middleState
        upSelect upState downSelect downState (m, usb) =
       UsbMouse_sendButtons L leftSelect' leftState rightSelect rightState' middleSelect' middleState
        upSelect' upState' downSelect' downState' (m, usb)"
    by (simp add: UsbMouse_sendButtons_def)
  then show ?thesis
    by (simp add: UsbMouse_sendButtons_def UsbMouse_sendUpdate_def sample_lib_def)
qed

subsection \<open>C2: at most five pressed keys\<close>

text \<open>
  C2. Let \<open>w\<close> be the keyboard after any sequence of calls on a freshly constructed
  object, and \<open>code\<close> a code that \<^verbatim>\<open>codeToModifier\<close> does not know. Then \<^verbatim>\<open>mKeys\<close> holds
  at most five keys, each once. A press inserts the translated usage when fewer than
  five keys are held and changes nothing otherwise, so a sixth press is dropped and no
  held key is replaced. A release removes the usage, and changes nothing when the
  usage is not held.
\<close>

theorem UsbKeyboard_pressedKeys_at_most_5:
  assumes reach: "w = UsbKeyboard_run L calls (UsbKeyboard_new junk, usb)"
    and regular: "codeToModifier L (ucast code) = - 1"
  shows "length (mKeys (fst w)) \<le> 5
    \<and> card (set (mKeys (fst w))) = length (mKeys (fst w))
    \<and> set (mKeys (fst (UsbKeyboard_sendKey L code True w))) =
        (if length (mKeys (fst w)) < 5 then insert (keymapUsb L code) (set (mKeys (fst w)))
         else set (mKeys (fst w)))
    \<and> (length (mKeys (fst w)) = 5 \<longrightarrow>
          mKeys (fst (UsbKeyboard_sendKey L code True w)) = mKeys (fst w))
    \<and> set (mKeys (fst (UsbKeyboard_sendKey L code False w))) =
        set (mKeys (fst w)) - {keymapUsb L code}
    \<and> (keymapUsb L code \<notin> set (mKeys (fst w)) \<longrightarrow>
          mKeys (fst (UsbKeyboard_sendKey L code False w)) = mKeys (fst w))"
proof -
  have ok: "keys_ok w"
    unfolding reach by (rule keys_ok_run) (rule keys_ok_new)
  then have d: "distinct (mKeys (fst w))" and le: "length (mKeys (fst w)) \<le> 5"
    by (simp_all add: keys_ok_def sorted_sless_distinct)
  have press: "mKeys (fst (UsbKeyboard_sendKey L code True w)) =
      (if length (mKeys (fst w)) < 5 then set_emplace (keymapUsb L code) (mKeys (fst w))
       else mKeys (fst w))"
    using regular by (simp add: mKeys_sendKey)
  have release: "mKeys (fst (UsbKeyboard_sendKey L code False w)) =
      (if keymapUsb L code \<in> set (mKeys (fst w)) then remove1 (keymapUsb L code) (mKeys (fst w))
       else mKeys (fst w))"
    using regular by (simp add: mKeys_sendKey)
  have c: "card (set (mKeys (fst w))) = length (mKeys (fst w))"
    using d by (rule distinct_card)
  have p1: "set (mKeys (fst (UsbKeyboard_sendKey L code True w))) =
        (if length (mKeys (fst w)) < 5 then insert (keymapUsb L code) (set (mKeys (fst w)))
         else set (mKeys (fst w)))"
    by (simp add: press set_set_emplace)
  have p2: "length (mKeys (fst w)) = 5 \<longrightarrow>
          mKeys (fst (UsbKeyboard_sendKey L code True w)) = mKeys (fst w)"
    by (simp add: press)
  have r1: "set (mKeys (fst (UsbKeyboard_sendKey L code False w))) =
        set (mKeys (fst w)) - {keymapUsb L code}"
    using d by (simp add: release)
  have r2: "keymapUsb L code \<notin> set (mKeys (fst w)) \<longrightarrow>
          mKeys (fst (UsbKeyboard_sendKey L code False w)) = mKeys (fst w)"
    by (simp add: release)
  from le c p1 p2 r1 r2 show ?thesis by blast
qed

text \<open>
  C2 at a concrete input: after the presses of the codes 1 to 5 the usages 4 to 8 are
  held; code 6 is no modifier; its press and its release both leave the five keys as
  they are.
\<close>

theorem UsbKeyboard_pressedKeys_at_most_5_witness:
  "codeToModifier sample_lib (ucast (6 :: uint8_t)) = - 1
   \<and> mKeys (fst (UsbKeyboard_run sample_lib
        [Call_sendKey 1 True, Call_sendKey 2 True, Call_sendKey 3 True, Call_sendKey 4 True,
         Call_sendKey 5 True] (UsbKeyboard_new 0, []))) = [4, 5, 6, 7, 8]
   \<and> mKeys (fst (UsbKeyboard_sendKey sample_lib 6 True (UsbKeyboard_run sample_lib
        [Call_sendKey 1 True, Call_sendKey 2 True, Call_sendKey 3 True, Call_sendKey 4 True,
         Call_sendKey 5 True] (UsbKeyboard_new 0, [])))) = [4, 5, 6, 7, 8]
   \<and> mKeys (fst (UsbKeyboard_sendKey sample_lib 6 False (UsbKeyboard_run sample_lib
        [Call_sendKey 1 True, Call_sendKey 2 True, Call_sendKey 3 True, Call_sendKey 4 True,
         Call_sendKey 5 True] (UsbKeyboard_new 0, [])))) = [4, 5, 6, 7, 8]"
proof -
  define w where "w = UsbKeyboard_run sample_lib
        [Call_sendKey 1 True, Call_sendKey 2 True, Call_sendKey 3 True, Call_sendKey 4 True,
         Call_sendKey 5 True] (UsbKeyboard_new 0, [])"
  have regular: "codeToModifier sample_lib (ucast (6 :: uint8_t)) = - 1"
    by (simp add: codeToModifier_def)
  have keys: "mKeys (fst w) = [4, 5, 6, 7, 8]"
    unfolding w_def
    by (simp add: mKeys_sendKey UsbKeyboard_new_def codeToModifier_def sample_lib_def)
  have absent: "keymapUsb sample_lib 6 \<notin> set [4, 5, 6, 7, 8 :: cint]"
    by (simp add: sample_lib_def)
  have "mKeys (fst (UsbKeyboard_sendKey sample_lib 6 True w)) = [4, 5, 6, 7, 8]
      \<and> mKeys (fst (UsbKeyboard_sendKey sample_lib 6 False w)) = [4, 5, 6, 7, 8]"
    using UsbKeyboard_pressedKeys_at_most_5 [OF w_def regular] absent by (simp add: keys)
  with regular keys show ?thesis
    unfolding w_def by (intro conjI) (erule conjunct1 conjunct2 | assumption)+
qed

subsection \<open>C3: the codes that are modifiers\<close>

text \<open>
  C3 counts eight modifier codes, one for each of Ctrl, Shift, Alt and Meta, left and
  right. The \<^verbatim>\<open>switch\<close> of \<^verbatim>\<open>codeToModifier\<close> has seven labels, 77 to 83, the last one
  commented \<^verbatim>\<open>AltRight\<close>: with single-bit flags the codes it takes for modifiers are
  those seven. Code 84, the next one, falls to the default under every header:
  \<^verbatim>\<open>sendKey(84, state)\<close> never changes \<^verbatim>\<open>mModifiers\<close>, and a press goes through
  \<^verbatim>\<open>keymapUsb\<close> into \<^verbatim>\<open>mKeys\<close> like a regular key.
\<close>

theorem UsbKeyboard_code_84_not_a_modifier:
  "{code :: uint8_t. codeToModifier sample_lib (ucast code) \<noteq> - 1} = {77, 78, 79, 80, 81, 82, 83}
   \<and> codeToModifier L 84 = - 1
   \<and> mModifiers (fst (UsbKeyboard_sendKey L 84 state (kb, usb))) = mModifiers kb
   \<and> mKeys (fst (UsbKeyboard_sendKey L 84 True (kb, usb))) =
       (if length (mKeys kb) < 5 then set_emplace (keymapUsb L 84) (mKeys kb) else mKeys kb)"
proof -
  have "{code :: uint8_t. codeToModifier sample_lib (ucast code) \<noteq> - 1} = {77, 78, 79, 80, 81, 82, 83}"
    by (auto simp: codeToModifier_def sample_lib_def split: if_splits dest: code_of_ucast)
  moreover have "codeToModifier L 84 = - 1"
    by (simp add: codeToModifier_def)
  ultimately show ?thesis
    by (simp add: mKeys_sendKey mModifiers_sendKey codeToModifier_def)
qed

subsection \<open>C4: the bytes of the keyboard report\<close>

text \<open>
  C4. For every keyboard state the report has length 9 and its bytes are the report
  id, the low byte of \<^verbatim>\<open>mModifiers\<close>, 0, the first key of \<^verbatim>\<open>mKeys\<close> (0 when no key is
  held), and five times 0. With \<^verbatim>\<open>mModifiers = KEY_ALT\<close> and the one key \<open>usageA\<close> held
  they are the report id, \<^verbatim>\<open>KEY_ALT\<close>, 0, \<open>usageA\<close>, 0, 0, 0, 0, 0.
\<close>

theorem sendRaport_report_wire_format:
  "rlength (sendRaport_report L kb) = 9
   \<and> wire_bytes (sendRaport_report L kb) =
       map Some [REPORT_ID_KEYBOARD L, ucast (mModifiers kb), 0,
                 (case mKeys kb of [] \<Rightarrow> 0 | k # rest \<Rightarrow> ucast k), 0, 0, 0, 0, 0]
   \<and> wire_bytes (sendRaport_report L \<lparr>mModifiers = KEY_ALT L, mKeys = [usageA]\<rparr>) =
       map Some [REPORT_ID_KEYBOARD L, ucast (KEY_ALT L), 0, ucast usageA, 0, 0, 0, 0, 0]"
proof -
  have "rlength (sendRaport_report L kb) = 9"
    by (simp add: sendRaport_report_def Let_def)
  moreover have "wire_bytes (sendRaport_report L \<lparr>mModifiers = KEY_ALT L, mKeys = [usageA]\<rparr>) =
     map Some [REPORT_ID_KEYBOARD L, ucast (KEY_ALT L), 0, ucast usageA, 0, 0, 0, 0, 0]"
    by (simp add: wire_bytes_sendRaport)
  ultimately show ?thesis
    by (simp add: wire_bytes_sendRaport)
qed

subsection \<open>C5: \<^verbatim>\<open>clear\<close> on the keyboard\<close>

text \<open>
  C5. For every keyboard state, \<^verbatim>\<open>clear()\<close> leaves \<^verbatim>\<open>mKeys\<close> empty and \<^verbatim>\<open>mModifiers\<close> as
  it was.
\<close>

theorem UsbKeyboard_clear_keeps_modifiers:
  "mKeys (fst (UsbKeyboard_clear (kb, usb))) = []
   \<and> mModifiers (fst (UsbKeyboard_clear (kb, usb))) = mModifiers kb"
  by (simp add: UsbKeyboard_clear_def)

subsection \<open>C6: which key the report carries\<close>

text \<open>
  C6 as stated fails. C6 takes \<^verbatim>\<open>mKeys\<close> for an insertion-ordered set and byte 3 of the
  report for the key pressed earliest among those held. Press code 2 (usage 5), then
  code 1 (usage 4): the \<^verbatim>\<open>std::set<int>\<close> iterates 4 before 5, and byte 3 is 4, while
  the key pressed earliest and still held, the head of the insertion-ordered list of
  the specification, is 5.
\<close>

theorem report_key_slot_not_earliest_pressed:
  "mKeys (fst (UsbKeyboard_run sample_lib [Call_sendKey 2 True, Call_sendKey 1 True]
        (UsbKeyboard_new 0, []))) = [4, 5]
   \<and> spec_pressedKeys sample_lib [Call_sendKey 2 True, Call_sendKey 1 True] = [5, 4]
   \<and> data (sendRaport_report sample_lib (fst (UsbKeyboard_run sample_lib
        [Call_sendKey 2 True, Call_sendKey 1 True] (UsbKeyboard_new 0, [])))) 3 = Some 4
   \<and> data (sendRaport_report sample_lib (fst (UsbKeyboard_run sample_lib
        [Call_sendKey 2 True, Call_sendKey 1 True] (UsbKeyboard_new 0, [])))) 3
      \<noteq> Some (ucast (hd (spec_pressedKeys sample_lib [Call_sendKey 2 True, Call_sendKey 1 True])))"
proof -
  have keys: "mKeys (fst (UsbKeyboard_run sample_lib [Call_sendKey 2 True, Call_sendKey 1 True]
        (UsbKeyboard_new 0, []))) = [4, 5]"
    by (simp add: mKeys_sendKey UsbKeyboard_new_def codeToModifier_def sample_lib_def)
  have spec: "spec_pressedKeys sample_lib [Call_sendKey 2 True, Call_sendKey 1 True] = [5, 4]"
    by (simp add: spec_pressedKeys_def codeToModifier_def sample_lib_def)
  have byte: "data (sendRaport_report sample_lib (fst (UsbKeyboard_run sample_lib
        [Call_sendKey 2 True, Call_sendKey 1 True] (UsbKeyboard_new 0, [])))) 3 = Some 4"
    unfolding sendRaport_report_def keys by simp
  show ?thesis
    unfolding byte spec using keys by simp
qed

text \<open>
  C6 as amended. \<^verbatim>\<open>mKeys\<close> is ordered by value, not by insertion: after any sequence of
  calls on a freshly constructed keyboard it is strictly ascending in the order of
  \<^verbatim>\<open>int\<close>, and when a key is held, byte 3 of the report is the low byte of the least
  usage id held, whatever the order of the presses.
\<close>

theorem report_key_slot_least_key:
  assumes reach: "w = UsbKeyboard_run L calls (UsbKeyboard_new junk, usb)"
    and held: "mKeys (fst w) = k # rest"
  shows "sorted_wrt (<s) (mKeys (fst w))
    \<and> (\<forall>k' \<in> set rest. k <s k')
    \<and> data (sendRaport_report L (fst w)) 3 = Some (ucast k)"
proof -
  have "keys_ok w"
    unfolding reach by (rule keys_ok_run) (rule keys_ok_new)
  then have s: "sorted_wrt (<s) (mKeys (fst w))"
    by (simp add: keys_ok_def)
  then have least: "\<forall>k' \<in> set rest. k <s k'"
    by (simp add: held)
  have "data (sendRaport_report L (fst w)) 3 = Some (ucast k)"
    by (simp add: sendRaport_report_def held)
  with s least show ?thesis by simp
qed

text \<open>
  C6 as amended, at the input of the counterexample: usage 5 is pressed first, usage 4
  second, and byte 3 is 4.
\<close>

theorem report_key_slot_least_key_witness:
  "mKeys (fst (UsbKeyboard_run sample_lib [Call_sendKey 2 True, Call_sendKey 1 True]
        (UsbKeyboard_new 0, []))) = [4, 5]
   \<and> (4 :: cint) <s 5
   \<and> data (sendRaport_report sample_lib (fst (UsbKeyboard_run sample_lib
        [Call_sendKey 2 True, Call_sendKey 1 True] (UsbKeyboard_new 0, [])))) 3 = Some 4"
proof -
  have keys: "mKeys (fst (UsbKeyboard_run sample_lib [Call_sendKey 2 True, Call_sendKey 1 True]
        (UsbKeyboard_new 0, []))) = [4, 5]"
    by (simp add: mKeys_sendKey UsbKeyboard_new_def codeToModifier_def sample_lib_def)
  show ?thesis
    using report_key_slot_least_key [OF refl keys] keys by simp
qed

subsection \<open>C7: who writes the cached position\<close>

text \<open>
  C7. \<^verbatim>\<open>sendRelative(dx, dy)\<close> returns the mouse unchanged and makes the one transport
  call \<^verbatim>\<open>move(dx, dy)\<close>. \<^verbatim>\<open>sendMove(x, y)\<close> stores \<open>x\<close> and \<open>y\<close> and then sends an update
  that carries them. \<^verbatim>\<open>sendButtons\<close> and \<^verbatim>\<open>sendWheel\<close>, the other sending methods, leave
  the cached position as it was.
\<close>

theorem UsbMouse_sendRelative_keeps_position:
  "UsbMouse_sendRelative dx dy (m, usb) = (m, usb @ [Move dx dy])
   \<and> UsbMouse_sendMove x y (m, usb) =
       (m\<lparr>mPositionX := x, mPositionY := y\<rparr>, usb @ [Update x y (mButtons m) (mScroll m)])
   \<and> mPositionX (fst (UsbMouse_sendButtons L ls lst rs rst ms mst us ust ds dst (m, usb))) =
       mPositionX m
   \<and> mPositionY (fst (UsbMouse_sendButtons L ls lst rs rst ms mst us ust ds dst (m, usb))) =
       mPositionY m
   \<and> mPositionX (fst (UsbMouse_sendWheel z (m, usb))) = mPositionX m
   \<and> mPositionY (fst (UsbMouse_sendWheel z (m, usb))) = mPositionY m"
  by (simp add: UsbMouse_sendRelative_def UsbMouse_sendMove_def UsbMouse_sendButtons_def
      UsbMouse_sendWheel_def UsbMouse_sendUpdate_def gKbMouse_move_def gKbMouse_update_def Let_def)

subsection \<open>C8: every \<^verbatim>\<open>sendKey\<close> sends one report\<close>

text \<open>
  C8. For every code, every \<open>state\<close> and every keyboard state, \<^verbatim>\<open>sendKey\<close> makes exactly
  one transport call: it sends the report built from the keyboard as the call leaves
  it. This covers the calls that change nothing.
\<close>

theorem UsbKeyboard_sendKey_sends_one_report:
  "snd (UsbKeyboard_sendKey L code state (kb, usb)) =
     usb @ [Send (sendRaport_report L (fst (UsbKeyboard_sendKey L code state (kb, usb))))]"
  using snd_sendKey [of L code state "(kb, usb)"] by simp

subsection \<open>C9: \<^verbatim>\<open>clear\<close> sends nothing\<close>

text \<open>
  C9. \<^verbatim>\<open>clear()\<close> on the keyboard and \<^verbatim>\<open>clear()\<close> on the mouse make no transport call: the
  transport after the call is the transport before it.
\<close>

theorem clear_sends_nothing:
  "snd (UsbKeyboard_clear (kb, usb)) = usb \<and> snd (UsbMouse_clear (m, usb)) = usb"
  by (simp add: UsbKeyboard_clear_def UsbMouse_clear_def)

subsection \<open>C10: \<^verbatim>\<open>sendButtons\<close> keeps position and scroll\<close>

text \<open>
  C10. For every mouse state and all ten arguments, \<^verbatim>\<open>sendButtons\<close> leaves \<^verbatim>\<open>mPositionX\<close>,
  \<^verbatim>\<open>mPositionY\<close> and \<^verbatim>\<open>mScroll\<close> as they were, and makes the one transport call
  \<^verbatim>\<open>update\<close> with the position and scroll cached before the call and the button mask
  the call has computed.
\<close>

theorem UsbMouse_sendButtons_keeps_position_scroll:
  "(let r = UsbMouse_sendButtons L ls lst rs rst ms mst us ust ds dst (m, usb) in
      mPositionX (fst r) = mPositionX m
      \<and> mPositionY (fst r) = mPositionY m
      \<and> mScroll (fst r) = mScroll m
      \<and> snd r = usb @ [Update (mPositionX m) (mPositionY m) (mButtons (fst r)) (mScroll m)])"
  by (simp add: UsbMouse_sendButtons_def UsbMouse_sendUpdate_def gKbMouse_update_def Let_def)

end
